theory Spec2Isabelle
  imports Main
begin

section \<open>Text primitives of the standardizer\<close>

text \<open>
  The cleaning module \<^verbatim>\<open>cosmic_data_science/clean/standardize.py\<close> works on Python
  strings through \<^verbatim>\<open>str.strip\<close>, \<^verbatim>\<open>str.title\<close>, \<^verbatim>\<open>str.split\<close> and two regular
  expressions. Strings are modelled as \<^typ>\<open>string\<close> and the character classes are the
  ASCII part of Python's: a character with a code of 128 or more is in no class here, so
  the development speaks about ASCII text. In particular \<open>to_upper\<close> and \<open>to_lower\<close> map one
  character to one character, which Python's case mapping does on ASCII only; no theorem
  below depends on what title-casing a text twice gives.
\<close>

definition isspace :: "char \<Rightarrow> bool" where
  \<comment> \<open>\<^verbatim>\<open>str.isspace\<close> and the regex class \<^verbatim>\<open>\s\<close>: tab, LF, VT, FF, CR, FS, GS, RS, US, space.\<close>
  "isspace c \<longleftrightarrow> (9 \<le> (of_char c :: nat) \<and> (of_char c :: nat) \<le> 13)
                \<or> (28 \<le> (of_char c :: nat) \<and> (of_char c :: nat) \<le> 32)"

definition isdigit :: "char \<Rightarrow> bool" where
  \<comment> \<open>the regex class \<^verbatim>\<open>\d\<close>: the characters 0 to 9.\<close>
  "isdigit c \<longleftrightarrow> 48 \<le> (of_char c :: nat) \<and> (of_char c :: nat) \<le> 57"

definition isupper :: "char \<Rightarrow> bool" where
  "isupper c \<longleftrightarrow> 65 \<le> (of_char c :: nat) \<and> (of_char c :: nat) \<le> 90"

definition islower :: "char \<Rightarrow> bool" where
  "islower c \<longleftrightarrow> 97 \<le> (of_char c :: nat) \<and> (of_char c :: nat) \<le> 122"

definition iscased :: "char \<Rightarrow> bool" where
  "iscased c \<longleftrightarrow> isupper c \<or> islower c"

definition isword :: "char \<Rightarrow> bool" where
  \<comment> \<open>the regex class \<^verbatim>\<open>\w\<close>: letters, digits and the underscore.\<close>
  "isword c \<longleftrightarrow> iscased c \<or> isdigit c \<or> c = CHR ''_''"

definition to_upper :: "char \<Rightarrow> char" where
  "to_upper c = (if islower c then char_of ((of_char c :: nat) - 32) else c)"

definition to_lower :: "char \<Rightarrow> char" where
  "to_lower c = (if isupper c then char_of ((of_char c :: nat) + 32) else c)"

definition strip :: "string \<Rightarrow> string" where
  \<comment> \<open>\<^verbatim>\<open>s.strip()\<close>: whitespace removed at both ends.\<close>
  "strip s = rev (dropWhile isspace (rev (dropWhile isspace s)))"

definition stripped :: "string \<Rightarrow> bool" where
  \<comment> \<open>no whitespace at either end.\<close>
  "stripped s \<longleftrightarrow> s = [] \<or> (\<not> isspace (hd s) \<and> \<not> isspace (last s))"

fun title_from :: "bool \<Rightarrow> string \<Rightarrow> string" where
  \<comment> \<open>the loop of \<^verbatim>\<open>str.title\<close>; the flag says whether the previous character was a letter.\<close>
  "title_from previous_is_cased [] = []"
| "title_from previous_is_cased (c # cs) =
     (if previous_is_cased then to_lower c else to_upper c) # title_from (iscased c) cs"

definition title :: "string \<Rightarrow> string" where
  "title s = title_from False s"

definition re_search_digits_end :: "string \<Rightarrow> nat option" where
  \<comment> \<open>\<^verbatim>\<open>re.search(r'\d+', s)\<close>: the leftmost match, taken greedily; the result is the
      match's \<^verbatim>\<open>end()\<close>, or \<open>None\<close> when no digit occurs.\<close>
  "re_search_digits_end s =
     (let skipped = takeWhile (\<lambda>c. \<not> isdigit c) s;
          rest = dropWhile (\<lambda>c. \<not> isdigit c) s
      in if rest = [] then None
         else Some (length skipped + length (takeWhile isdigit rest)))"

definition split_colon_first :: "string \<Rightarrow> string" where
  \<comment> \<open>\<^verbatim>\<open>s.split(':', 1)[0]\<close>: the part before the first colon.\<close>
  "split_colon_first s = takeWhile (\<lambda>c. c \<noteq> CHR '':'') s"

section \<open>Label repair\<close>

definition clean_taxonomy_labels :: "string \<Rightarrow> string option" where
  "clean_taxonomy_labels label =
     (if label = [] then None
      else
        let converted_label = title (strip label);
            converted_label =
              (if CHR '':'' \<notin> set converted_label then
                 (case re_search_digits_end converted_label of
                    Some e \<Rightarrow> take e converted_label @ '':'' @ drop e converted_label
                  | None \<Rightarrow> converted_label)
               else converted_label)
        in if CHR '':'' \<in> set converted_label
           then Some (strip (split_colon_first converted_label))
           else Some converted_label)"

section \<open>The inventory sheet\<close>

text \<open>
  The data frame that \<^verbatim>\<open>read_excel\<close> returns for the sheet "Inventory" is a list of
  rows with the ten named columns. A cell is a text, a number or missing (pandas' NaN, which
  is what a blank spreadsheet cell becomes). The pipeline never computes with a number, it
  only tests whether a cell is a text or is missing, so every numeric cell is a \<open>Num\<close>.
  A sheet that lacks one of the ten columns makes the first access to it raise; the record
  type leaves that case out.
\<close>

datatype cell = Str string | Num int | NaN

record row =
  technology_name :: cell
  tech_producer :: cell
  description :: cell
  existing_technology :: cell
  level_one_category :: cell
  level_two_category :: cell
  level_three_category :: cell
  trl :: cell
  level_one_functional_category :: cell
  level_two_functional_category :: cell

datatype py_error = TypeError | ValueError | AttributeError

fun drop_duplicates_from :: "'a list \<Rightarrow> 'a list \<Rightarrow> 'a list" where
  \<comment> \<open>one pass over the rows with the rows seen so far; a row seen before is dropped.\<close>
  "drop_duplicates_from seen [] = []"
| "drop_duplicates_from seen (x # xs) =
     (if x \<in> set seen then drop_duplicates_from seen xs
      else x # drop_duplicates_from (x # seen) xs)"

definition drop_duplicates :: "'a list \<Rightarrow> 'a list" where
  \<comment> \<open>\<^verbatim>\<open>df.drop_duplicates()\<close> with its defaults: all columns compared, first occurrence kept.\<close>
  "drop_duplicates df = drop_duplicates_from [] df"

definition is_str :: "cell \<Rightarrow> bool" where
  \<comment> \<open>\<^verbatim>\<open>isinstance(x, str)\<close>\<close>
  "is_str c = (case c of Str _ \<Rightarrow> True | _ \<Rightarrow> False)"

definition strip_title_cell :: "cell \<Rightarrow> cell" where
  \<comment> \<open>\<^verbatim>\<open>.str.strip().str.title()\<close> on one cell of an object column: a cell that is not
      a text comes out missing.\<close>
  "strip_title_cell c = (case c of Str s \<Rightarrow> Str (title (strip s)) | _ \<Rightarrow> NaN)"

definition str_strip_title :: "cell list \<Rightarrow> py_error + cell list" where
  \<comment> \<open>\<^verbatim>\<open>column.str.strip().str.title()\<close>. The \<^verbatim>\<open>.str\<close> accessor exists on a column of
      object dtype only: a column with rows but without any text was read as a numeric
      column and the access raises AttributeError.\<close>
  "str_strip_title col =
     (if col = [] \<or> list_ex is_str col then Inr (map strip_title_cell col)
      else Inl AttributeError)"

fun str_values :: "cell list \<Rightarrow> string list" where
  \<comment> \<open>the filter \<^verbatim>\<open>[... for cat in categories if isinstance(cat, str)]\<close>\<close>
  "str_values [] = []"
| "str_values (Str s # cs) = s # str_values cs"
| "str_values (c # cs) = str_values cs"

fun max_key_len_from :: "string \<Rightarrow> string option list \<Rightarrow> py_error + string" where
  \<comment> \<open>the loop of \<^verbatim>\<open>max(xs, key=len)\<close> after its first item: a later item replaces the
      best one only when it is strictly longer; \<^verbatim>\<open>len(None)\<close> raises TypeError.\<close>
  "max_key_len_from best [] = Inr best"
| "max_key_len_from best (None # xs) = Inl TypeError"
| "max_key_len_from best (Some x # xs) =
     max_key_len_from (if length best < length x then x else best) xs"

fun max_key_len :: "string option list \<Rightarrow> py_error + string" where
  "max_key_len [] = Inl ValueError"
| "max_key_len (None # xs) = Inl TypeError"
| "max_key_len (Some x # xs) = max_key_len_from x xs"

definition longest_tech_category :: "row \<Rightarrow> py_error + string" where
  "longest_tech_category r =
     (let categories = [level_one_category r, level_two_category r, level_three_category r];
          categories = map clean_taxonomy_labels (str_values categories)
      in if categories = [] then Inr ''Unknown Technology Category''
         else max_key_len categories)"

definition longest_functional_category :: "row \<Rightarrow> py_error + string" where
  "longest_functional_category r =
     (let categories = [level_one_functional_category r, level_two_functional_category r];
          categories = map clean_taxonomy_labels (str_values categories)
      in if categories = [] then Inr ''Unknown Functional Category''
         else max_key_len categories)"

fun apply_rows :: "(row \<Rightarrow> py_error + 'a) \<Rightarrow> row list \<Rightarrow> py_error + 'a list" where
  \<comment> \<open>\<^verbatim>\<open>df.apply(f, axis=1)\<close>: the function on every row in order; the first raise ends it.\<close>
  "apply_rows f [] = Inr []"
| "apply_rows f (r # rs) =
     (case f r of
        Inl e \<Rightarrow> Inl e
      | Inr v \<Rightarrow> (case apply_rows f rs of Inl e \<Rightarrow> Inl e | Inr vs \<Rightarrow> Inr (v # vs)))"

definition fillna :: "cell \<Rightarrow> cell \<Rightarrow> cell" where
  "fillna v c = (case c of NaN \<Rightarrow> v | _ \<Rightarrow> c)"

section \<open>Description sanitization\<close>

definition CLEAN_DESCRIPTION :: "char \<Rightarrow> bool" where
  \<comment> \<open>the characters matched by \<^verbatim>\<open>[^\w\s,.\-]\<close>, which the substitution deletes.\<close>
  "CLEAN_DESCRIPTION c \<longleftrightarrow>
     \<not> (isword c \<or> isspace c \<or> c = CHR '','' \<or> c = CHR ''.'' \<or> c = CHR ''-'')"

definition clean_description :: "cell \<Rightarrow> cell" where
  "clean_description desc =
     (case desc of
        Str s \<Rightarrow>
          (let cleaned_text = filter (\<lambda>c. \<not> CLEAN_DESCRIPTION c) s
           in if strip cleaned_text \<noteq> [] then Str (strip cleaned_text)
              else Str ''No Description Available'')
      | _ \<Rightarrow> Str ''No Description Available'')"

section \<open>The pipeline\<close>

text \<open>
  \<^verbatim>\<open>standardize_inventory_data\<close> from the data frame on (the file is read before), one
  definition per block of the source, in the source's order. A column assignment
  \<^verbatim>\<open>df[col] = values\<close> pairs the values with the rows in order. The in-place
  \<^verbatim>\<open>fillna\<close> calls write through to the frame, as they do in the pandas releases without
  copy-on-write.
\<close>

definition standardize_names :: "row list \<Rightarrow> py_error + row list" where
  "standardize_names df =
     (case str_strip_title (map technology_name df) of
        Inl e \<Rightarrow> Inl e
      | Inr names \<Rightarrow>
          let df = map2 (\<lambda>v r. r\<lparr>technology_name := v\<rparr>) names df
          in (case str_strip_title (map tech_producer df) of
                Inl e \<Rightarrow> Inl e
              | Inr producers \<Rightarrow> Inr (map2 (\<lambda>v r. r\<lparr>tech_producer := v\<rparr>) producers df)))"

definition consolidate_tech :: "row list \<Rightarrow> py_error + row list" where
  "consolidate_tech df =
     (case apply_rows longest_tech_category df of
        Inl e \<Rightarrow> Inl e
      | Inr taxonomy_values \<Rightarrow>
          let df = map2 (\<lambda>v r. r\<lparr>level_one_category := Str v\<rparr>) taxonomy_values df;
              df = map2 (\<lambda>v r. r\<lparr>level_two_category := Str v\<rparr>) taxonomy_values df;
              df = map2 (\<lambda>v r. r\<lparr>level_three_category := Str v\<rparr>) taxonomy_values df
          in Inr df)"

definition consolidate_functional :: "row list \<Rightarrow> py_error + row list" where
  "consolidate_functional df =
     (case apply_rows longest_functional_category df of
        Inl e \<Rightarrow> Inl e
      | Inr values_one \<Rightarrow>
          let df = map2 (\<lambda>v r. r\<lparr>level_one_functional_category := Str v\<rparr>) values_one df
          in (case apply_rows longest_functional_category df of
                Inl e \<Rightarrow> Inl e
              | Inr values_two \<Rightarrow>
                  Inr (map2 (\<lambda>v r. r\<lparr>level_two_functional_category := Str v\<rparr>) values_two df)))"

definition fill_missing :: "row \<Rightarrow> row" where
  "fill_missing r =
     r\<lparr>technology_name := fillna (Str ''Unknown Technology Name'') (technology_name r),
       tech_producer := fillna (Str ''Unknown Tech Producer'') (tech_producer r),
       description := fillna (Str ''No Description Available'') (description r),
       existing_technology := fillna (Str ''Unknown Existing Technology'') (existing_technology r),
       trl := fillna (Num 0) (trl r),
       level_one_category := fillna (Str ''Unknown Technology Category'') (level_one_category r),
       level_two_category := fillna (Str ''Unknown Technology Category'') (level_two_category r),
       level_three_category := fillna (Str ''Unknown Technology Category'') (level_three_category r),
       level_one_functional_category :=
         fillna (Str ''Unknown Functional Category'') (level_one_functional_category r),
       level_two_functional_category :=
         fillna (Str ''Unknown Functional Category'') (level_two_functional_category r)\<rparr>"

definition validate_description :: "row \<Rightarrow> row" where
  "validate_description r = r\<lparr>description := clean_description (description r)\<rparr>"

definition standardize_inventory_data :: "row list \<Rightarrow> py_error + row list" where
  "standardize_inventory_data sheet =
     (let df = drop_duplicates sheet
      in case standardize_names df of
           Inl e \<Rightarrow> Inl e
         | Inr df \<Rightarrow>
             (case consolidate_tech df of
                Inl e \<Rightarrow> Inl e
              | Inr df \<Rightarrow>
                  (case consolidate_functional df of
                     Inl e \<Rightarrow> Inl e
                   | Inr df \<Rightarrow> Inr (map validate_description (map fill_missing df)))))"

definition standardize_twice :: "row list \<Rightarrow> py_error + row list" where
  \<comment> \<open>the pipeline run again on its own output.\<close>
  "standardize_twice sheet =
     (case standardize_inventory_data sheet of
        Inl e \<Rightarrow> Inl e
      | Inr df \<Rightarrow> standardize_inventory_data df)"

section \<open>The pipeline seen row by row\<close>

text \<open>
  Apart from the test of the two name columns, every step treats each row on its own. The
  two definitions below say what the pipeline does to one row and when the name columns
  pass; \<open>standardize_inventory_data_Inr_iff\<close> proves that the pipeline succeeds exactly then,
  with exactly these rows.
\<close>

definition names_ok :: "row list \<Rightarrow> bool" where
  "names_ok df \<longleftrightarrow>
     df = [] \<or> (list_ex is_str (map technology_name df) \<and> list_ex is_str (map tech_producer df))"

definition standardize_row :: "row \<Rightarrow> py_error + row" where
  "standardize_row r =
     (let r = r\<lparr>technology_name := strip_title_cell (technology_name r),
                 tech_producer := strip_title_cell (tech_producer r)\<rparr>
      in case longest_tech_category r of
           Inl e \<Rightarrow> Inl e
         | Inr v \<Rightarrow>
             (let r = r\<lparr>level_one_category := Str v, level_two_category := Str v,
                         level_three_category := Str v\<rparr>
              in case longest_functional_category r of
                   Inl e \<Rightarrow> Inl e
                 | Inr v1 \<Rightarrow>
                     (let r = r\<lparr>level_one_functional_category := Str v1\<rparr>
                      in case longest_functional_category r of
                           Inl e \<Rightarrow> Inl e
                         | Inr v2 \<Rightarrow>
                             Inr (validate_description
                                    (fill_missing (r\<lparr>level_two_functional_category := Str v2\<rparr>))))))"

section \<open>Sample rows\<close>

definition sample_row :: row where
  "sample_row =
     \<lparr>technology_name = Str ''robotic arm'',
      tech_producer = Str ''acme'',
      description = Str ''A gripper.'',
      existing_technology = Str ''Yes'',
      level_one_category = Str ''A:1'',
      level_two_category = Str ''BB:22'',
      level_three_category = NaN,
      trl = Num 5,
      level_one_functional_category = Str ''F01: Mobility'',
      level_two_functional_category = NaN\<rparr>"

definition sample_cleaned :: row where
  \<comment> \<open>what the pipeline makes of \<open>sample_row\<close>.\<close>
  "sample_cleaned =
     sample_row
       \<lparr>technology_name := Str ''Robotic Arm'',
        tech_producer := Str ''Acme'',
        level_one_category := Str ''Bb'',
        level_two_category := Str ''Bb'',
        level_three_category := Str ''Bb'',
        level_one_functional_category := Str ''F01'',
        level_two_functional_category := Str ''F01''\<rparr>"

definition tie_row :: row where
  \<comment> \<open>two technology labels whose repaired values, \<open>Aa\<close> and \<open>Bb\<close>, have the same length.\<close>
  "tie_row = sample_row\<lparr>level_one_category := Str ''AA:1''\<rparr>"

definition near_duplicate_sheet :: "row list" where
  \<comment> \<open>two rows that differ in the casing of the name only.\<close>
  "near_duplicate_sheet = [sample_row, sample_row\<lparr>technology_name := Str ''Robotic Arm''\<rparr>]"

definition digits_sheet :: "row list" where
  \<comment> \<open>a technology label with a number in the middle of the part before the colon.\<close>
  "digits_sheet = [sample_row\<lparr>level_one_category := Str ''Level 2 Support: Ground''\<rparr>]"

section \<open>Characters, stripping and title-casing\<close>

lemma of_char_to_upper:
  "(of_char (to_upper c) :: nat) = (if islower c then of_char c - 32 else of_char c)"
  by (auto simp: to_upper_def islower_def)

lemma of_char_to_lower:
  "(of_char (to_lower c) :: nat) = (if isupper c then of_char c + 32 else of_char c)"
  by (auto simp: to_lower_def isupper_def)

lemma isspace_to_upper [simp]: "isspace (to_upper c) = isspace c"
  by (auto simp: isspace_def of_char_to_upper islower_def)

lemma isspace_to_lower [simp]: "isspace (to_lower c) = isspace c"
  by (auto simp: isspace_def of_char_to_lower isupper_def)

lemma colon_iff: "c = CHR '':'' \<longleftrightarrow> (of_char c :: nat) = 58"
  by (simp flip: of_char_eq_iff [where 'a = nat])

lemma to_upper_colon [simp]: "to_upper c = CHR '':'' \<longleftrightarrow> c = CHR '':''"
  by (auto simp: colon_iff of_char_to_upper islower_def)

lemma to_lower_colon [simp]: "to_lower c = CHR '':'' \<longleftrightarrow> c = CHR '':''"
  by (auto simp: colon_iff of_char_to_lower isupper_def)

lemma map_isspace_title_from: "map isspace (title_from b s) = map isspace s"
  by (induction s arbitrary: b) auto

lemma colon_to_upper [simp]: "CHR '':'' = to_upper c \<longleftrightarrow> c = CHR '':''"
  using to_upper_colon [of c] by (auto simp del: to_upper_colon)

lemma colon_to_lower [simp]: "CHR '':'' = to_lower c \<longleftrightarrow> c = CHR '':''"
  using to_lower_colon [of c] by (auto simp del: to_lower_colon)

lemma colon_title_from: "CHR '':'' \<in> set (title_from b s) \<longleftrightarrow> CHR '':'' \<in> set s"
  by (induction s arbitrary: b) auto

lemma length_title_from [simp]: "length (title_from b s) = length s"
  by (induction s arbitrary: b) auto

lemma strip_stripped: "stripped s \<Longrightarrow> strip s = s"
proof (cases "s = []")
  case True
  then show ?thesis by (simp add: strip_def)
next
  case False
  assume "stripped s"
  with False have front: "\<not> isspace (hd s)" and rear: "\<not> isspace (last s)"
    by (simp_all add: stripped_def)
  from front have "dropWhile isspace s = s"
    by (simp add: dropWhile_eq_self_iff)
  moreover from rear have "dropWhile isspace (rev s) = rev s"
    by (simp add: dropWhile_eq_self_iff hd_rev)
  ultimately show ?thesis by (simp add: strip_def)
qed

lemma stripped_strip: "stripped (strip s)"
proof (cases "strip s = []")
  case True
  then show ?thesis by (simp add: stripped_def)
next
  case False
  let ?t = "dropWhile isspace s"
  let ?u = "dropWhile isspace (rev ?t)"
  have s: "strip s = rev ?u" by (simp add: strip_def)
  with False have u: "?u \<noteq> []" by simp
  then have hd_u: "\<not> isspace (hd ?u)" by (rule hd_dropWhile)
  from u have "hd ?u \<in> set ?u" by simp
  then have "hd ?u \<in> set (rev ?t)" by (rule set_dropWhileD)
  with hd_u have "last ?u = last (rev ?t)" by (simp add: dropWhile_last)
  moreover have t: "?t \<noteq> []"
  proof
    assume empty: "?t = []"
    have "?u = []" unfolding empty by simp
    with u show False by contradiction
  qed
  then have "\<not> isspace (hd ?t)" by (rule hd_dropWhile)
  ultimately have "\<not> isspace (last ?u)" by (simp add: last_rev)
  with hd_u False show ?thesis
    unfolding stripped_def s by (simp add: hd_rev last_rev)
qed

lemma strip_idem: "strip (strip s) = strip s"
  by (rule strip_stripped) (rule stripped_strip)

lemma set_strip: "set (strip s) \<subseteq> set s"
  by (auto simp: strip_def dest!: set_dropWhileD)

lemma stripped_title_from: "stripped s \<Longrightarrow> stripped (title_from b s)"
proof (cases "s = []")
  case True
  then show ?thesis by (simp add: stripped_def)
next
  case False
  assume "stripped s"
  from False have ne: "title_from b s \<noteq> []" by (cases s) auto
  have "isspace (hd (title_from b s)) = hd (map isspace (title_from b s))"
    using ne by (simp add: hd_map)
  also have "\<dots> = isspace (hd s)"
    using False by (simp add: map_isspace_title_from hd_map)
  finally have front: "isspace (hd (title_from b s)) = isspace (hd s)" .
  have "isspace (last (title_from b s)) = last (map isspace (title_from b s))"
    using ne by (simp add: last_map)
  also have "\<dots> = isspace (last s)"
    using False by (simp add: map_isspace_title_from last_map)
  finally have "isspace (last (title_from b s)) = isspace (last s)" .
  with front \<open>stripped s\<close> False show ?thesis by (simp add: stripped_def)
qed

lemma clean_taxonomy_labels_shape:
  assumes "clean_taxonomy_labels label = Some r"
  shows "CHR '':'' \<notin> set r \<and> stripped r"
proof -
  let ?c = "title (strip label)"
  have c: "stripped ?c"
    by (simp add: title_def stripped_title_from stripped_strip)
  have cut: "CHR '':'' \<notin> set (strip (split_colon_first xs))" for xs
    using set_strip [of "split_colon_first xs"]
    by (auto simp: split_colon_first_def dest: set_takeWhileD)
  show ?thesis
  proof (cases "CHR '':'' \<in> set ?c")
    case True
    with assms have "r = strip (split_colon_first ?c)"
      by (simp add: clean_taxonomy_labels_def split: if_splits)
    then show ?thesis by (simp add: cut stripped_strip)
  next
    case False
    show ?thesis
    proof (cases "re_search_digits_end ?c")
      case None
      with False assms have "r = ?c"
        by (simp add: clean_taxonomy_labels_def split: if_splits)
      with False c show ?thesis by simp
    next
      case (Some e)
      with False assms have "r = strip (split_colon_first (take e ?c @ '':'' @ drop e ?c))"
        by (simp add: clean_taxonomy_labels_def Let_def split: if_splits)
      then show ?thesis by (simp add: cut stripped_strip)
    qed
  qed
qed

section \<open>Deduplication\<close>

lemma drop_duplicates_from_positions:
  "drop_duplicates_from seen xs =
     map ((!) xs) (filter (\<lambda>i. xs ! i \<notin> set seen \<union> set (take i xs)) [0..<length xs])"
proof (induction xs arbitrary: seen)
  case Nil
  then show ?case by simp
next
  case (Cons x xs)
  have upt: "[0..<length (x # xs)] = 0 # map Suc [0..<length xs]"
    by (simp add: upt_conv_Cons map_Suc_upt del: upt_Suc)
  show ?case
    unfolding upt
    by (auto simp add: Cons.IH filter_map o_def simp del: upt_Suc
          intro!: arg_cong[where f = "map ((!) xs)"] filter_cong)
qed

lemma set_drop_duplicates_from: "set (drop_duplicates_from seen xs) = set xs - set seen"
  by (induction xs arbitrary: seen) auto

lemma distinct_drop_duplicates_from: "distinct (drop_duplicates_from seen xs)"
  by (induction xs arbitrary: seen) (auto simp: set_drop_duplicates_from)

lemma drop_duplicates_from_distinct:
  "distinct xs \<Longrightarrow> set seen \<inter> set xs = {} \<Longrightarrow> drop_duplicates_from seen xs = xs"
  by (induction xs arbitrary: seen) auto

lemma set_drop_duplicates: "set (drop_duplicates df) = set df"
  by (simp add: drop_duplicates_def set_drop_duplicates_from)

lemma distinct_drop_duplicates: "distinct (drop_duplicates df)"
  by (simp add: drop_duplicates_def distinct_drop_duplicates_from)

lemma drop_duplicates_distinct: "distinct df \<Longrightarrow> drop_duplicates df = df"
  by (simp add: drop_duplicates_def drop_duplicates_from_distinct)

section \<open>The pipeline is the row function on the deduplicated rows\<close>

lemma map2_same: "map2 g (map f xs) xs = map (\<lambda>r. g (f r) r) xs"
  by (induction xs) auto

lemma eq_map_iff_list_all2: "out = map f zs \<longleftrightarrow> list_all2 (\<lambda>z r'. r' = f z) zs out"
  by (induction zs arbitrary: out) (auto simp: list_all2_Cons1)

lemma standardize_names_eq:
  "standardize_names df =
     (if names_ok df
      then Inr (map (\<lambda>r. r\<lparr>technology_name := strip_title_cell (technology_name r),
                            tech_producer := strip_title_cell (tech_producer r)\<rparr>) df)
      else Inl AttributeError)"
  by (auto simp: standardize_names_def str_strip_title_def names_ok_def Let_def map2_same
      map2_map_map o_def)

lemma consolidate_tech_Cons:
  "consolidate_tech (r # rs) = Inr out \<longleftrightarrow>
     (\<exists>v os. longest_tech_category r = Inr v \<and> consolidate_tech rs = Inr os \<and>
        out = r\<lparr>level_one_category := Str v, level_two_category := Str v,
                 level_three_category := Str v\<rparr> # os)"
  by (auto simp: consolidate_tech_def split: sum.splits)

lemma consolidate_tech_Inr_iff:
  "consolidate_tech df = Inr out \<longleftrightarrow>
     list_all2 (\<lambda>r r'. \<exists>v. longest_tech_category r = Inr v \<and>
        r' = r\<lparr>level_one_category := Str v, level_two_category := Str v,
                level_three_category := Str v\<rparr>) df out"
proof (induction df arbitrary: out)
  case Nil
  then show ?case by (auto simp: consolidate_tech_def)
next
  case (Cons r rs)
  show ?case
    unfolding consolidate_tech_Cons by (auto simp: Cons.IH list_all2_Cons1)
qed

lemma consolidate_functional_Cons:
  "consolidate_functional (r # rs) = Inr out \<longleftrightarrow>
     (\<exists>v1 v2 os. longest_functional_category r = Inr v1 \<and>
        longest_functional_category (r\<lparr>level_one_functional_category := Str v1\<rparr>) = Inr v2 \<and>
        consolidate_functional rs = Inr os \<and>
        out = r\<lparr>level_one_functional_category := Str v1,
                 level_two_functional_category := Str v2\<rparr> # os)"
  by (auto simp: consolidate_functional_def split: sum.splits)

lemma consolidate_functional_Inr_iff:
  "consolidate_functional df = Inr out \<longleftrightarrow>
     list_all2 (\<lambda>r r'. \<exists>v1 v2. longest_functional_category r = Inr v1 \<and>
        longest_functional_category (r\<lparr>level_one_functional_category := Str v1\<rparr>) = Inr v2 \<and>
        r' = r\<lparr>level_one_functional_category := Str v1,
                level_two_functional_category := Str v2\<rparr>) df out"
proof (induction df arbitrary: out)
  case Nil
  then show ?case by (auto simp: consolidate_functional_def)
next
  case (Cons r rs)
  show ?case
    unfolding consolidate_functional_Cons by (auto simp: Cons.IH list_all2_Cons1)
qed

lemma standardize_inventory_data_Inr_iff:
  "standardize_inventory_data sheet = Inr out \<longleftrightarrow>
     names_ok (drop_duplicates sheet) \<and>
     list_all2 (\<lambda>r r'. standardize_row r = Inr r') (drop_duplicates sheet) out"
proof (cases "names_ok (drop_duplicates sheet)")
  case False
  then show ?thesis
    by (simp add: standardize_inventory_data_def standardize_names_eq)
next
  case True
  let ?N = "\<lambda>r. r\<lparr>technology_name := strip_title_cell (technology_name r),
                       tech_producer := strip_title_cell (tech_producer r)\<rparr>"
  let ?T = "\<lambda>r r'. \<exists>v. longest_tech_category (?N r) = Inr v \<and>
        r' = (?N r)\<lparr>level_one_category := Str v, level_two_category := Str v,
                level_three_category := Str v\<rparr>"
  let ?F = "\<lambda>r r'. \<exists>v1 v2. longest_functional_category r = Inr v1 \<and>
        longest_functional_category (r\<lparr>level_one_functional_category := Str v1\<rparr>) = Inr v2 \<and>
        r' = r\<lparr>level_one_functional_category := Str v1,
                level_two_functional_category := Str v2\<rparr>"
  let ?V = "\<lambda>z r'. r' = validate_description (fill_missing z)"
  let ?xs = "drop_duplicates sheet"
  have "standardize_inventory_data sheet = Inr out \<longleftrightarrow>
      (\<exists>ys. consolidate_tech (map ?N ?xs) = Inr ys \<and>
         (\<exists>zs. consolidate_functional ys = Inr zs \<and>
            out = map (\<lambda>z. validate_description (fill_missing z)) zs))"
    using True
    by (auto simp: standardize_inventory_data_def standardize_names_eq split: sum.splits)
  also have "\<dots> \<longleftrightarrow>
      (\<exists>ys. list_all2 ?T ?xs ys \<and> (\<exists>zs. list_all2 ?F ys zs \<and> list_all2 ?V zs out))"
    unfolding consolidate_tech_Inr_iff consolidate_functional_Inr_iff list_all2_map1
      eq_map_iff_list_all2 ..
  also have "\<dots> \<longleftrightarrow> list_all2 (?T OO ?F OO ?V) ?xs out"
    unfolding list.rel_compp by (simp only: relcompp_apply)
  also have "(?T OO ?F OO ?V) = (\<lambda>r r'. standardize_row r = Inr r')"
    by (intro ext) (auto simp: relcompp_apply standardize_row_def Let_def split: sum.splits)
  finally show ?thesis using True by simp
qed

lemma standardize_inventory_data_length:
  "standardize_inventory_data sheet = Inr out \<Longrightarrow> length out = length (drop_duplicates sheet)"
  by (auto simp: standardize_inventory_data_Inr_iff dest: list_all2_lengthD)

section \<open>Consolidation\<close>

lemma clean_taxonomy_labels_Some: "s \<noteq> [] \<Longrightarrow> \<exists>r. clean_taxonomy_labels s = Some r"
  by (simp add: clean_taxonomy_labels_def Let_def)

lemma str_values_mem: "s \<in> set (str_values cs) \<Longrightarrow> Str s \<in> set cs"
  by (induction cs rule: str_values.induct) auto

lemma map_Some_ex: "(\<forall>x\<in>set xs. \<exists>y. f x = Some y) \<Longrightarrow> \<exists>ys. map f xs = map Some ys"
proof (induction xs)
  case Nil
  then show ?case by simp
next
  case (Cons x xs)
  then obtain y ys where "f x = Some y" and "map f xs = map Some ys" by auto
  then have "map f (x # xs) = map Some (y # ys)" by simp
  then show ?case by blast
qed

lemma repaired_str_values:
  assumes "Str [] \<notin> set cs"
  shows "\<exists>cats. map clean_taxonomy_labels (str_values cs) = map Some cats"
proof (rule map_Some_ex, rule ballI)
  fix s assume "s \<in> set (str_values cs)"
  then have "Str s \<in> set cs" by (rule str_values_mem)
  with assms have "s \<noteq> []" by auto
  then show "\<exists>r. clean_taxonomy_labels s = Some r" by (rule clean_taxonomy_labels_Some)
qed

lemma max_key_len_from_first_longest:
  "\<exists>v pre post. max_key_len_from best (map Some xs) = Inr v \<and> best # xs = pre @ v # post \<and>
     (\<forall>x\<in>set pre. length x < length v) \<and> (\<forall>x\<in>set post. length x \<le> length v)"
proof (induction xs arbitrary: best)
  case Nil
  have "[best] = [] @ best # []" by simp
  then show ?case by force
next
  case (Cons x xs)
  show ?case
  proof (cases "length best < length x")
    case True
    from Cons.IH [of x] obtain v pre post where
      run: "max_key_len_from x (map Some xs) = Inr v" and split: "x # xs = pre @ v # post" and
      pre: "\<forall>y\<in>set pre. length y < length v" and post: "\<forall>y\<in>set post. length y \<le> length v"
      by blast
    from split have "x \<in> set (pre @ v # post)" by (metis list.set_intros(1))
    with pre post have "length x \<le> length v" by auto
    with True pre have pre': "\<forall>y\<in>set (best # pre). length y < length v" by auto
    from split have "best # x # xs = (best # pre) @ v # post" by simp
    moreover from True run have "max_key_len_from best (map Some (x # xs)) = Inr v" by simp
    ultimately show ?thesis using pre' post by blast
  next
    case False
    from Cons.IH [of best] obtain v pre post where
      run: "max_key_len_from best (map Some xs) = Inr v" and split: "best # xs = pre @ v # post" and
      pre: "\<forall>y\<in>set pre. length y < length v" and post: "\<forall>y\<in>set post. length y \<le> length v"
      by blast
    from False run have run': "max_key_len_from best (map Some (x # xs)) = Inr v" by simp
    show ?thesis
    proof (cases pre)
      case Nil
      with split have v: "v = best" and xs: "xs = post" by simp_all
      from v xs have "best # x # xs = [] @ v # (x # post)" by simp
      moreover from False v post have "\<forall>y\<in>set (x # post). length y \<le> length v" by auto
      ultimately show ?thesis using run' by (metis empty_iff list.set(1))
    next
      case (Cons p pre')
      with split have p: "p = best" and xs: "xs = pre' @ v # post" by simp_all
      from pre Cons p have "length best < length v" by simp
      with False pre Cons have "\<forall>y\<in>set (best # x # pre'). length y < length v" by auto
      moreover from xs have "best # x # xs = (best # x # pre') @ v # post" by simp
      ultimately show ?thesis using run' post by blast
    qed
  qed
qed

lemma max_key_len_first_longest:
  assumes "cats \<noteq> []"
  shows "\<exists>v pre post. max_key_len (map Some cats) = Inr v \<and> cats = pre @ v # post \<and>
     (\<forall>x\<in>set pre. length x < length v) \<and> (\<forall>x\<in>set post. length x \<le> length v)"
proof -
  from assms obtain c cs where cats: "cats = c # cs" by (cases cats) auto
  show ?thesis
    unfolding cats using max_key_len_from_first_longest [of c cs] by simp
qed

lemma longest_tech_category_names [simp]:
  "longest_tech_category (r\<lparr>technology_name := a, tech_producer := b\<rparr>) = longest_tech_category r"
  by (simp add: longest_tech_category_def)

lemma standardize_row_tech:
  assumes "standardize_row r = Inr r'"
  shows "\<exists>v. longest_tech_category r = Inr v \<and> level_one_category r' = Str v \<and>
     level_two_category r' = Str v \<and> level_three_category r' = Str v"
  using assms
  by (auto simp: standardize_row_def Let_def validate_description_def fill_missing_def fillna_def
      split: sum.splits)

lemma standardize_inventory_data_nth:
  assumes "standardize_inventory_data sheet = Inr out" and "i < length out"
  shows "standardize_row (drop_duplicates sheet ! i) = Inr (out ! i)"
proof -
  from assms(1) have all: "list_all2 (\<lambda>r r'. standardize_row r = Inr r') (drop_duplicates sheet) out"
    by (simp add: standardize_inventory_data_Inr_iff)
  from assms(2) all have "i < length (drop_duplicates sheet)"
    by (simp add: list_all2_lengthD)
  with all show ?thesis by (rule list_all2_nthD)
qed


lemma tech_categories_identical:
  assumes "standardize_inventory_data sheet = Inr out" and "r' \<in> set out"
  shows "level_one_category r' = level_two_category r' \<and>
     level_two_category r' = level_three_category r'"
proof -
  from assms(2) obtain i where i: "i < length out" and r': "out ! i = r'"
    by (auto simp: in_set_conv_nth)
  from standardize_inventory_data_nth [OF assms(1) i] r'
  have "standardize_row (drop_duplicates sheet ! i) = Inr r'" by simp
  from standardize_row_tech [OF this] show ?thesis by auto
qed

section \<open>The pipeline on a row it has produced\<close>

lemma placeholder_description:
  "clean_description (Str ''No Description Available'') = Str ''No Description Available''"
  by code_simp

lemma name_cell_text: "\<exists>n. fillna (Str p) (strip_title_cell c) = Str n"
  by (cases c) (simp_all add: fillna_def strip_title_cell_def)

lemma clean_description_not_text:
  "\<not> is_str c \<Longrightarrow> clean_description c = Str ''No Description Available''"
  by (cases c) (simp_all add: clean_description_def is_str_def)

lemma clean_description_settled:
  "\<exists>d. clean_description c = Str d \<and> clean_description (Str d) = Str d"
proof (cases c)
  case (Str s)
  let ?kept = "filter (\<lambda>c. \<not> CLEAN_DESCRIPTION c) s"
  show ?thesis
  proof (cases "strip ?kept = []")
    case True
    with Str have "clean_description c = Str ''No Description Available''"
      by (simp add: clean_description_def)
    with placeholder_description show ?thesis by blast
  next
    case False
    have "set (strip ?kept) \<subseteq> set ?kept" by (rule set_strip)
    then have "filter (\<lambda>c. \<not> CLEAN_DESCRIPTION c) (strip ?kept) = strip ?kept"
      by (auto simp: filter_id_conv)
    with False have "clean_description (Str (strip ?kept)) = Str (strip ?kept)"
      by (simp add: clean_description_def strip_idem)
    moreover from Str False have "clean_description c = Str (strip ?kept)"
      by (simp add: clean_description_def)
    ultimately show ?thesis by blast
  qed
next
  case (Num x)
  then have "clean_description c = Str ''No Description Available''"
    by (simp add: clean_description_not_text is_str_def)
  with placeholder_description show ?thesis by blast
next
  case NaN
  then have "clean_description c = Str ''No Description Available''"
    by (simp add: clean_description_not_text is_str_def)
  with placeholder_description show ?thesis by blast
qed

lemma max_key_len_one: "max_key_len [x] = Inr v \<longleftrightarrow> x = Some v"
  by (cases x) auto

lemma max_key_len_two:
  "max_key_len [x, y] = Inr v \<longleftrightarrow>
     (\<exists>a b. x = Some a \<and> y = Some b \<and> v = (if length a < length b then b else a))"
  by (cases x; cases y) auto

lemma max_key_len_from_one:
  "max_key_len_from best [y] = Inr v \<longleftrightarrow>
     (\<exists>b. y = Some b \<and> v = (if length best < length b then b else best))"
  by (cases y) auto

lemma functional_second_pass:
  assumes "longest_functional_category r = Inr v1"
    and "longest_functional_category (r\<lparr>level_one_functional_category := Str v1\<rparr>) = Inr v2"
    and "clean_taxonomy_labels v1 = Some v1"
  shows "v2 = v1"
  using assms
  by (cases "level_one_functional_category r"; cases "level_two_functional_category r")
    (auto simp: longest_functional_category_def max_key_len_one max_key_len_two
      max_key_len_from_one split: if_splits)

lemma standardize_row_fields:
  assumes "standardize_row r = Inr r'"
  shows "\<exists>v v1 v2. longest_tech_category r = Inr v \<and> longest_functional_category r = Inr v1 \<and>
     longest_functional_category (r\<lparr>level_one_functional_category := Str v1\<rparr>) = Inr v2 \<and>
     r' = \<lparr>technology_name =
             fillna (Str ''Unknown Technology Name'') (strip_title_cell (technology_name r)),
           tech_producer =
             fillna (Str ''Unknown Tech Producer'') (strip_title_cell (tech_producer r)),
           description =
             clean_description (fillna (Str ''No Description Available'') (description r)),
           existing_technology =
             fillna (Str ''Unknown Existing Technology'') (existing_technology r),
           level_one_category = Str v, level_two_category = Str v, level_three_category = Str v,
           trl = fillna (Num 0) (trl r),
           level_one_functional_category = Str v1, level_two_functional_category = Str v2\<rparr>"
  using assms
  by (cases r)
    (auto simp: standardize_row_def Let_def validate_description_def fill_missing_def fillna_def
      longest_tech_category_def longest_functional_category_def split: sum.splits)

lemma standardize_row_settled:
  assumes "title (strip n) = n" and "title (strip p) = p"
    and "clean_description (Str d) = Str d" and "e \<noteq> NaN" and "t \<noteq> NaN"
    and "clean_taxonomy_labels v = Some v" and "clean_taxonomy_labels f = Some f"
  shows "standardize_row
     \<lparr>technology_name = Str n, tech_producer = Str p, description = Str d,
      existing_technology = e, level_one_category = Str v, level_two_category = Str v,
      level_three_category = Str v, trl = t, level_one_functional_category = Str f,
      level_two_functional_category = Str f\<rparr>
   = Inr \<lparr>technology_name = Str n, tech_producer = Str p, description = Str d,
      existing_technology = e, level_one_category = Str v, level_two_category = Str v,
      level_three_category = Str v, trl = t, level_one_functional_category = Str f,
      level_two_functional_category = Str f\<rparr>"
  using assms
  by (cases e; cases t)
    (simp_all add: standardize_row_def Let_def validate_description_def fill_missing_def fillna_def
      longest_tech_category_def longest_functional_category_def strip_title_cell_def)

lemma fillna_not_NaN: "v \<noteq> NaN \<Longrightarrow> fillna v c \<noteq> NaN"
  by (cases c) (simp_all add: fillna_def)

lemma standardize_row_fixed:
  assumes row: "standardize_row r = Inr r'"
    and tech: "\<forall>v. level_one_category r' = Str v \<longrightarrow> clean_taxonomy_labels v = Some v"
    and func: "\<forall>v. level_one_functional_category r' = Str v \<longrightarrow> clean_taxonomy_labels v = Some v"
    and name: "\<forall>n. technology_name r' = Str n \<longrightarrow> title (strip n) = n"
    and producer: "\<forall>p. tech_producer r' = Str p \<longrightarrow> title (strip p) = p"
  shows "standardize_row r' = Inr r'"
proof -
  let ?n = "fillna (Str ''Unknown Technology Name'') (strip_title_cell (technology_name r))"
  let ?p = "fillna (Str ''Unknown Tech Producer'') (strip_title_cell (tech_producer r))"
  let ?d = "clean_description (fillna (Str ''No Description Available'') (description r))"
  let ?e = "fillna (Str ''Unknown Existing Technology'') (existing_technology r)"
  let ?t = "fillna (Num 0) (trl r)"
  from standardize_row_fields [OF row] obtain v v1 v2 where
    f1: "longest_functional_category r = Inr v1" and
    f2: "longest_functional_category (r\<lparr>level_one_functional_category := Str v1\<rparr>) = Inr v2" and
    r': "r' = \<lparr>technology_name = ?n, tech_producer = ?p, description = ?d,
           existing_technology = ?e,
           level_one_category = Str v, level_two_category = Str v, level_three_category = Str v,
           trl = ?t,
           level_one_functional_category = Str v1, level_two_functional_category = Str v2\<rparr>"
    by blast
  from tech r' have cv: "clean_taxonomy_labels v = Some v" by simp
  from func r' have cf: "clean_taxonomy_labels v1 = Some v1" by simp
  from functional_second_pass [OF f1 f2 cf] have same: "v2 = v1" .
  from name_cell_text obtain n where n: "?n = Str n" by blast
  from name r' n have n_fixed: "title (strip n) = n" by simp
  from name_cell_text obtain p where p: "?p = Str p" by blast
  from producer r' p have p_fixed: "title (strip p) = p" by simp
  from clean_description_settled obtain d where
    d: "?d = Str d" and d_fixed: "clean_description (Str d) = Str d" by blast
  have e: "?e \<noteq> NaN" by (rule fillna_not_NaN) simp
  have t: "?t \<noteq> NaN" by (rule fillna_not_NaN) simp
  show ?thesis
    unfolding r' n p d same
    using n_fixed p_fixed d_fixed e t cv cf by (rule standardize_row_settled)
qed

lemma standardize_row_names:
  assumes "standardize_row r = Inr r'"
  shows "is_str (technology_name r') \<and> is_str (tech_producer r')"
proof -
  from name_cell_text obtain n where
    "fillna (Str ''Unknown Technology Name'') (strip_title_cell (technology_name r)) = Str n"
    by blast
  moreover from name_cell_text obtain p where
    "fillna (Str ''Unknown Tech Producer'') (strip_title_cell (tech_producer r)) = Str p"
    by blast
  moreover from standardize_row_fields [OF assms] have
    "technology_name r' =
       fillna (Str ''Unknown Technology Name'') (strip_title_cell (technology_name r)) \<and>
     tech_producer r' =
       fillna (Str ''Unknown Tech Producer'') (strip_title_cell (tech_producer r))"
    by auto
  ultimately show ?thesis by (simp add: is_str_def)
qed

lemma standardize_inventory_data_row:
  assumes "standardize_inventory_data sheet = Inr out" and "r' \<in> set out"
  shows "\<exists>r. standardize_row r = Inr r'"
proof -
  from assms(2) obtain i where i: "i < length out" and r': "out ! i = r'"
    by (auto simp: in_set_conv_nth)
  from standardize_inventory_data_nth [OF assms(1) i] r' show ?thesis by auto
qed

lemma clean_description_nonempty: "\<exists>d. clean_description c = Str d \<and> d \<noteq> []"
proof (cases c)
  case (Str s)
  then show ?thesis
    by (cases "strip (filter (\<lambda>c. \<not> CLEAN_DESCRIPTION c) s) = []")
      (simp_all add: clean_description_def)
qed (simp_all add: clean_description_not_text is_str_def)

lemma output_has_no_missing_cell:
  assumes "standardize_inventory_data sheet = Inr out" and "r' \<in> set out"
  shows "technology_name r' \<noteq> NaN \<and> tech_producer r' \<noteq> NaN \<and>
     (\<exists>d. description r' = Str d \<and> d \<noteq> []) \<and> existing_technology r' \<noteq> NaN \<and>
     level_one_category r' \<noteq> NaN \<and> level_two_category r' \<noteq> NaN \<and>
     level_three_category r' \<noteq> NaN \<and> trl r' \<noteq> NaN \<and>
     level_one_functional_category r' \<noteq> NaN \<and> level_two_functional_category r' \<noteq> NaN"
proof -
  from standardize_inventory_data_row [OF assms] obtain r where "standardize_row r = Inr r'" ..
  from standardize_row_fields [OF this] obtain v v1 v2 where
    r': "r' = \<lparr>technology_name =
             fillna (Str ''Unknown Technology Name'') (strip_title_cell (technology_name r)),
           tech_producer =
             fillna (Str ''Unknown Tech Producer'') (strip_title_cell (tech_producer r)),
           description =
             clean_description (fillna (Str ''No Description Available'') (description r)),
           existing_technology =
             fillna (Str ''Unknown Existing Technology'') (existing_technology r),
           level_one_category = Str v, level_two_category = Str v, level_three_category = Str v,
           trl = fillna (Num 0) (trl r),
           level_one_functional_category = Str v1, level_two_functional_category = Str v2\<rparr>"
    by blast
  show ?thesis
    unfolding r' using clean_description_nonempty by (simp add: fillna_not_NaN)
qed

section \<open>Deduplication of the sheet\<close>

text \<open>
  C9. Deduplication keeps a row exactly when no earlier row equals it in all ten fields: the
  result is the rows at the positions \<open>i\<close> whose row does not occur among the first \<open>i\<close>
  rows, in their order. For rows \<open>A\<close>, \<open>A\<close>, \<open>B\<close> with \<open>B\<close> different from \<open>A\<close> that is
  \<open>A\<close>, \<open>B\<close>. The later steps neither add nor remove a row, so a sheet that is processed
  without an error comes out with as many rows as deduplication left.
\<close>

theorem drop_duplicates_first_occurrences:
  "drop_duplicates df = map ((!) df) (filter (\<lambda>i. df ! i \<notin> set (take i df)) [0..<length df])
   \<and> (A \<noteq> B \<longrightarrow> drop_duplicates [A, A, B] = [A, B])
   \<and> (standardize_inventory_data sheet = Inr out \<longrightarrow>
        length out = length (drop_duplicates sheet))"
  by (simp add: drop_duplicates_def drop_duplicates_from_positions [of "[]"]
      standardize_inventory_data_length [unfolded drop_duplicates_def])

theorem drop_duplicates_first_occurrences_witness:
  "sample_row \<noteq> sample_row\<lparr>trl := NaN\<rparr> \<and>
   drop_duplicates [sample_row, sample_row, sample_row\<lparr>trl := NaN\<rparr>]
     = [sample_row, sample_row\<lparr>trl := NaN\<rparr>] \<and>
   standardize_inventory_data [sample_row, sample_row, sample_row\<lparr>trl := NaN\<rparr>]
     = Inr [sample_cleaned, sample_cleaned\<lparr>trl := Num 0\<rparr>] \<and>
   length [sample_cleaned, sample_cleaned\<lparr>trl := Num 0\<rparr>]
     = length (drop_duplicates [sample_row, sample_row, sample_row\<lparr>trl := NaN\<rparr>])"
proof -
  have ne: "sample_row \<noteq> sample_row\<lparr>trl := NaN\<rparr>"
    by (simp add: sample_row_def)
  have run: "standardize_inventory_data [sample_row, sample_row, sample_row\<lparr>trl := NaN\<rparr>]
      = Inr [sample_cleaned, sample_cleaned\<lparr>trl := Num 0\<rparr>]"
    by code_simp
  note first = drop_duplicates_first_occurrences
    [where A = sample_row and B = "sample_row\<lparr>trl := NaN\<rparr>"
      and df = "[sample_row, sample_row, sample_row\<lparr>trl := NaN\<rparr>]"
      and sheet = "[sample_row, sample_row, sample_row\<lparr>trl := NaN\<rparr>]"
      and out = "[sample_cleaned, sample_cleaned\<lparr>trl := Num 0\<rparr>]"]
  from first ne have kept: "drop_duplicates [sample_row, sample_row, sample_row\<lparr>trl := NaN\<rparr>]
      = [sample_row, sample_row\<lparr>trl := NaN\<rparr>]"
    by blast
  from first run have "length [sample_cleaned, sample_cleaned\<lparr>trl := Num 0\<rparr>]
      = length (drop_duplicates [sample_row, sample_row, sample_row\<lparr>trl := NaN\<rparr>])"
    by blast
  with ne kept run show ?thesis
    by blast
qed

section \<open>Consolidation of the technology categories\<close>

text \<open>
  C8. Take a row none of whose three technology categories is the empty text. Then every
  text among them is repaired to a text (\<open>cats\<close>, in column order), and
  \<^verbatim>\<open>longest_tech_category\<close> returns a value \<open>v\<close>: the placeholder when there is no text,
  and otherwise an element of \<open>cats\<close> such that everything before it is strictly shorter and
  nothing after it is longer, that is, the longest one and the first among the longest.
  Whenever the pipeline succeeds on a sheet in which this row survives deduplication, the
  output row at its position holds \<open>v\<close> in all three technology categories.
\<close>

theorem longest_tech_category_consolidation:
  assumes "Str [] \<notin> set [level_one_category r, level_two_category r, level_three_category r]"
  shows "\<exists>cats v.
     map clean_taxonomy_labels
       (str_values [level_one_category r, level_two_category r, level_three_category r])
       = map Some cats \<and>
     longest_tech_category r = Inr v \<and>
     (cats = [] \<longrightarrow> v = ''Unknown Technology Category'') \<and>
     (cats \<noteq> [] \<longrightarrow>
        (\<exists>pre post. cats = pre @ v # post \<and> (\<forall>x\<in>set pre. length x < length v) \<and>
           (\<forall>x\<in>set post. length x \<le> length v))) \<and>
     (\<forall>sheet out i.
        standardize_inventory_data sheet = Inr out \<longrightarrow> i < length out \<longrightarrow>
        drop_duplicates sheet ! i = r \<longrightarrow>
        level_one_category (out ! i) = Str v \<and> level_two_category (out ! i) = Str v \<and>
        level_three_category (out ! i) = Str v)"
proof -
  let ?cells = "[level_one_category r, level_two_category r, level_three_category r]"
  from repaired_str_values [OF assms] obtain cats where
    cats: "map clean_taxonomy_labels (str_values ?cells) = map Some cats" ..
  have assigned: "\<forall>sheet out i.
        standardize_inventory_data sheet = Inr out \<longrightarrow> i < length out \<longrightarrow>
        drop_duplicates sheet ! i = r \<longrightarrow>
        level_one_category (out ! i) = Str v \<and> level_two_category (out ! i) = Str v \<and>
        level_three_category (out ! i) = Str v"
    if v: "longest_tech_category r = Inr v" for v
  proof (intro allI impI)
    fix sheet out i
    assume "standardize_inventory_data sheet = Inr out" and "i < length out"
      and "drop_duplicates sheet ! i = r"
    then have "standardize_row r = Inr (out ! i)"
      using standardize_inventory_data_nth by blast
    from standardize_row_tech [OF this] v
    show "level_one_category (out ! i) = Str v \<and> level_two_category (out ! i) = Str v \<and>
        level_three_category (out ! i) = Str v"
      by auto
  qed
  show ?thesis
  proof (cases "cats = []")
    case True
    with cats have "longest_tech_category r = Inr ''Unknown Technology Category''"
      by (simp add: longest_tech_category_def)
    with cats True assigned show ?thesis by blast
  next
    case False
    from max_key_len_first_longest [OF False] obtain v pre post where
      run: "max_key_len (map Some cats) = Inr v" and split: "cats = pre @ v # post" and
      pre: "\<forall>x\<in>set pre. length x < length v" and post: "\<forall>x\<in>set post. length x \<le> length v"
      by blast
    from cats False have "str_values ?cells \<noteq> []"
      by auto
    with cats run have "longest_tech_category r = Inr v"
      by (simp add: longest_tech_category_def Let_def)
    with cats False split pre post assigned [of v] show ?thesis by blast
  qed
qed

theorem longest_tech_category_consolidation_witness:
  "Str [] \<notin> set [level_one_category tie_row, level_two_category tie_row, level_three_category tie_row] \<and>
   longest_tech_category tie_row = Inr ''Aa'' \<and>
   standardize_inventory_data [tie_row]
     = Inr [sample_cleaned\<lparr>level_one_category := Str ''Aa'', level_two_category := Str ''Aa'',
                           level_three_category := Str ''Aa''\<rparr>] \<and>
   (\<exists>v. level_one_category (sample_cleaned\<lparr>level_one_category := Str ''Aa'', level_two_category := Str ''Aa'',
                           level_three_category := Str ''Aa''\<rparr>) = Str v \<and> longest_tech_category tie_row = Inr v)"
proof -
  let ?out = "sample_cleaned\<lparr>level_one_category := Str ''Aa'', level_two_category := Str ''Aa'',
                           level_three_category := Str ''Aa''\<rparr>"
  have given: "Str [] \<notin> set [level_one_category tie_row, level_two_category tie_row, level_three_category tie_row]"
    by (simp add: tie_row_def sample_row_def)
  have longest: "longest_tech_category tie_row = Inr ''Aa''"
    by code_simp
  have run: "standardize_inventory_data [tie_row] = Inr [?out]"
    by code_simp
  have kept: "drop_duplicates [tie_row] ! 0 = tie_row"
    by (simp add: drop_duplicates_def)
  from longest_tech_category_consolidation [OF given] obtain v where
    v: "longest_tech_category tie_row = Inr v" and
    assigned: "\<forall>sheet out i.
        standardize_inventory_data sheet = Inr out \<longrightarrow> i < length out \<longrightarrow>
        drop_duplicates sheet ! i = tie_row \<longrightarrow>
        level_one_category (out ! i) = Str v \<and> level_two_category (out ! i) = Str v \<and>
        level_three_category (out ! i) = Str v"
    by blast
  from assigned run kept have "level_one_category ([?out] ! 0) = Str v"
    by (metis length_Cons zero_less_Suc)
  then have "level_one_category ?out = Str v"
    by (simp only: nth_Cons_0)
  with given longest run v show ?thesis
    by blast
qed

section \<open>Label repair on single labels\<close>

text \<open>
  C5. The claim: in a label without a colon the colon goes after the last run of digits,
  so that the result ends with the last run. The docstring of \<^verbatim>\<open>clean_taxonomy_labels\<close>
  says the same ("finding the last number in the label") and the variable is called
  \<^verbatim>\<open>last_number\<close>, but \<^verbatim>\<open>re.search\<close> returns the leftmost match. On
  \<^verbatim>\<open>tx04.5.5 capture\<close> the title-cased text is \<^verbatim>\<open>Tx04.5.5 Capture\<close>, whose last run of
  digits ends at position 8; the search ends at position 4 and the result is
  \<^verbatim>\<open>Tx04\<close>, not \<^verbatim>\<open>Tx04.5.5\<close>.
\<close>

theorem clean_taxonomy_labels_first_digit_run:
  "title (strip ''tx04.5.5 capture'') = ''Tx04.5.5 Capture'' \<and>
   re_search_digits_end ''Tx04.5.5 Capture'' = Some 4 \<and>
   clean_taxonomy_labels ''tx04.5.5 capture'' = Some ''Tx04''"
  by code_simp

text \<open>
  C6, as the claim states it: the label \<^verbatim>\<open>TX04.5.5: Capture Mechanisms and Fixtures\<close> is
  repaired to \<^verbatim>\<open>TX04.5.5\<close> with its casing kept. It is not: the label is title-cased
  before it is cut.
\<close>

theorem clean_taxonomy_labels_casing_counterexample:
  "clean_taxonomy_labels ''TX04.5.5: Capture Mechanisms and Fixtures'' \<noteq> Some ''TX04.5.5''"
  by code_simp

text \<open>
  C6, amended: label repair of \<^verbatim>\<open>TX04.5.5: Capture Mechanisms and Fixtures\<close> returns
  exactly \<^verbatim>\<open>Tx04.5.5\<close>, the title-cased code before the first colon.
\<close>

theorem clean_taxonomy_labels_tx04_5_5:
  "clean_taxonomy_labels ''TX04.5.5: Capture Mechanisms and Fixtures'' = Some ''Tx04.5.5''"
  by code_simp

text \<open>
  C10. Whenever label repair of a non-empty text returns a text, that text contains no colon
  and neither starts nor ends with whitespace (stripping it again changes nothing).
\<close>

theorem clean_taxonomy_labels_no_colon_no_margin:
  "label \<noteq> [] \<Longrightarrow> clean_taxonomy_labels label = Some r \<Longrightarrow>
   CHR '':'' \<notin> set r \<and> strip r = r \<and>
   (r \<noteq> [] \<longrightarrow> \<not> isspace (hd r) \<and> \<not> isspace (last r))"
  using clean_taxonomy_labels_shape [of label r] strip_stripped [of r]
  by (auto simp: stripped_def)

theorem clean_taxonomy_labels_no_colon_no_margin_witness:
  "''TX04: Robotics'' \<noteq> [] \<and> clean_taxonomy_labels ''TX04: Robotics'' = Some ''Tx04'' \<and>
   CHR '':'' \<notin> set ''Tx04'' \<and> strip ''Tx04'' = ''Tx04'' \<and>
   \<not> isspace (hd ''Tx04'') \<and> \<not> isspace (last ''Tx04'')"
proof -
  have given: "''TX04: Robotics'' \<noteq> []"
    by simp
  have run: "clean_taxonomy_labels ''TX04: Robotics'' = Some ''Tx04''"
    by code_simp
  have some: "''Tx04'' \<noteq> []"
    by simp
  from clean_taxonomy_labels_no_colon_no_margin [OF given run] given run some
  show ?thesis
    by blast
qed

section \<open>Description sanitization on the sample text\<close>

text \<open>
  C7, as the claim states it: the description \<^verbatim>\<open>Valid, text! With #symbols & stuff.\<close>
  becomes \<^verbatim>\<open>Valid, text. With symbols stuff.\<close> It does not: the exclamation mark is
  deleted, not turned into a period, and the two spaces around the ampersand both stay.
\<close>

theorem clean_description_sample_counterexample:
  "clean_description (Str ''Valid, text! With #symbols & stuff.'')
     \<noteq> Str ''Valid, text. With symbols stuff.''"
  by code_simp

text \<open>
  C7, amended: description sanitization of \<^verbatim>\<open>Valid, text! With #symbols & stuff.\<close>
  returns exactly \<^verbatim>\<open>Valid, text With symbols  stuff.\<close>: the three characters
  \<^verbatim>\<open>!\<close>, \<^verbatim>\<open>#\<close> and \<^verbatim>\<open>&\<close> are deleted and every other character stays, the comma,
  the period and each space among them.
\<close>

theorem clean_description_sample:
  "clean_description (Str ''Valid, text! With #symbols & stuff.'')
     = Str ''Valid, text With symbols  stuff.''"
  by code_simp

section \<open>Running the pipeline on its own output\<close>

text \<open>
  C4, as the claim states it: the pipeline applied to its own output returns that output,
  and repairing consolidated category values again changes nothing. Two sheets show that it
  does not. Rows are deduplicated before the names are normalised, so the rows
  \<^verbatim>\<open>robotic arm\<close> and \<^verbatim>\<open>Robotic Arm\<close> both survive the first run, come out equal, and the
  second run drops one of them. And the consolidated label \<^verbatim>\<open>Level 2 Support\<close> has no colon
  any more, so the second run puts one after the number and cuts the label to
  \<^verbatim>\<open>Level 2\<close>.
\<close>

theorem standardize_twice_counterexample:
  "standardize_inventory_data near_duplicate_sheet = Inr [sample_cleaned, sample_cleaned] \<and>
   standardize_twice near_duplicate_sheet = Inr [sample_cleaned] \<and>
   standardize_twice near_duplicate_sheet \<noteq> standardize_inventory_data near_duplicate_sheet \<and>
   standardize_inventory_data digits_sheet
     = Inr [sample_cleaned\<lparr>level_one_category := Str ''Level 2 Support'',
                           level_two_category := Str ''Level 2 Support'',
                           level_three_category := Str ''Level 2 Support''\<rparr>] \<and>
   standardize_twice digits_sheet
     = Inr [sample_cleaned\<lparr>level_one_category := Str ''Level 2'',
                           level_two_category := Str ''Level 2'',
                           level_three_category := Str ''Level 2''\<rparr>] \<and>
   standardize_twice digits_sheet \<noteq> standardize_inventory_data digits_sheet"
  by code_simp

text \<open>
  C4, amended. Let the pipeline return the data frame \<open>out\<close>, and let \<open>out\<close> be settled:
  no two of its rows are equal, stripping and title-casing leaves the Technology Name and
  the Tech Producer of every row as they are, and label repair leaves the consolidated
  technology value and the Level One functional value of every row as they are. Then the
  pipeline applied to the data frame \<open>out\<close> succeeds and returns \<open>out\<close>, so that running
  it twice gives what running it once gives. The four conditions are hypotheses: the proof
  uses nothing about what title-casing or label repair do to a text, only that they leave
  these texts alone. The second run is on the data frame itself; writing it to a file and
  reading that file again is another operation and not part of the statement.
\<close>

theorem standardize_idempotent_on_settled_output:
  assumes run: "standardize_inventory_data sheet = Inr out"
    and rows: "distinct out"
    and tech: "\<forall>r\<in>set out. \<forall>v. level_one_category r = Str v \<longrightarrow> clean_taxonomy_labels v = Some v"
    and func: "\<forall>r\<in>set out. \<forall>v. level_one_functional_category r = Str v \<longrightarrow>
        clean_taxonomy_labels v = Some v"
    and name: "\<forall>r\<in>set out. \<forall>n. technology_name r = Str n \<longrightarrow> title (strip n) = n"
    and producer: "\<forall>r\<in>set out. \<forall>p. tech_producer r = Str p \<longrightarrow> title (strip p) = p"
  shows "standardize_inventory_data out = Inr out \<and>
     standardize_twice sheet = standardize_inventory_data sheet"
proof -
  have fixed: "standardize_row r' = Inr r'" if "r' \<in> set out" for r'
  proof -
    from standardize_inventory_data_row [OF run that] obtain r where "standardize_row r = Inr r'" ..
    then show ?thesis
      using tech func name producer that by (intro standardize_row_fixed) auto
  qed
  have names: "names_ok out"
  proof (cases out)
    case Nil
    then show ?thesis by (simp add: names_ok_def)
  next
    case (Cons r' rest)
    then have "r' \<in> set out" by simp
    from standardize_inventory_data_row [OF run this] obtain r where "standardize_row r = Inr r'" ..
    from standardize_row_names [OF this] Cons show ?thesis by (simp add: names_ok_def)
  qed
  from rows have "drop_duplicates out = out" by (rule drop_duplicates_distinct)
  with names fixed have again: "standardize_inventory_data out = Inr out"
    by (simp add: standardize_inventory_data_Inr_iff list_all2_same)
  with run show ?thesis by (simp add: standardize_twice_def)
qed

theorem standardize_idempotent_on_settled_output_witness:
  "standardize_inventory_data [sample_row, sample_row\<lparr>trl := NaN\<rparr>]
     = Inr [sample_cleaned, sample_cleaned\<lparr>trl := Num 0\<rparr>] \<and>
   distinct [sample_cleaned, sample_cleaned\<lparr>trl := Num 0\<rparr>] \<and>
   clean_taxonomy_labels ''Bb'' = Some ''Bb'' \<and> clean_taxonomy_labels ''F01'' = Some ''F01'' \<and>
   title (strip ''Robotic Arm'') = ''Robotic Arm'' \<and> title (strip ''Acme'') = ''Acme'' \<and>
   standardize_inventory_data [sample_cleaned, sample_cleaned\<lparr>trl := Num 0\<rparr>]
     = Inr [sample_cleaned, sample_cleaned\<lparr>trl := Num 0\<rparr>] \<and>
   standardize_twice [sample_row, sample_row\<lparr>trl := NaN\<rparr>]
     = standardize_inventory_data [sample_row, sample_row\<lparr>trl := NaN\<rparr>]"
proof -
  let ?out = "[sample_cleaned, sample_cleaned\<lparr>trl := Num 0\<rparr>]"
  have run: "standardize_inventory_data [sample_row, sample_row\<lparr>trl := NaN\<rparr>] = Inr ?out"
    by code_simp
  have rows: "distinct ?out"
    by (simp add: sample_cleaned_def sample_row_def)
  have bb: "clean_taxonomy_labels ''Bb'' = Some ''Bb''"
    by code_simp
  have f01: "clean_taxonomy_labels ''F01'' = Some ''F01''"
    by code_simp
  have tech: "\<forall>r\<in>set ?out. \<forall>v. level_one_category r = Str v \<longrightarrow> clean_taxonomy_labels v = Some v"
    using bb by (simp add: sample_cleaned_def sample_row_def)
  have func: "\<forall>r\<in>set ?out. \<forall>v. level_one_functional_category r = Str v \<longrightarrow>
      clean_taxonomy_labels v = Some v"
    using f01 by (simp add: sample_cleaned_def sample_row_def)
  have arm: "title (strip ''Robotic Arm'') = ''Robotic Arm''"
    by code_simp
  have acme: "title (strip ''Acme'') = ''Acme''"
    by code_simp
  have name: "\<forall>r\<in>set ?out. \<forall>n. technology_name r = Str n \<longrightarrow> title (strip n) = n"
    using arm by (simp add: sample_cleaned_def sample_row_def)
  have producer: "\<forall>r\<in>set ?out. \<forall>p. tech_producer r = Str p \<longrightarrow> title (strip p) = p"
    using acme by (simp add: sample_cleaned_def sample_row_def)
  from standardize_idempotent_on_settled_output [OF run rows tech func name producer]
    run rows bb f01 arm acme
  show ?thesis
    by blast
qed

section \<open>The pipeline on single rows\<close>

text \<open>
  C1. The claim: in every output row the three technology categories are equal and the two
  functional categories are equal. The technology value is computed once
  (\<^verbatim>\<open>taxonomy_values\<close>) and stored three times. The functional value is computed twice, and
  the second \<^verbatim>\<open>df.apply\<close> reads the Level One column that the first has just
  overwritten: it repairs the repaired label again. On a row with the functional labels
  \<^verbatim>\<open>Level 2 Support: Ground\<close> and missing, Level One becomes \<^verbatim>\<open>Level 2 Support\<close> and
  Level Two becomes \<^verbatim>\<open>Level 2\<close>.
\<close>

theorem functional_categories_differ:
  "standardize_inventory_data
     [sample_row\<lparr>level_one_functional_category := Str ''Level 2 Support: Ground''\<rparr>]
   = Inr [sample_cleaned\<lparr>level_one_functional_category := Str ''Level 2 Support'',
                          level_two_functional_category := Str ''Level 2''\<rparr>]"
  by code_simp

text \<open>
  C2. The claim: an empty category is repaired to "no value", left out of the choice of the
  longest label, and never makes the call fail. \<^verbatim>\<open>clean_taxonomy_labels\<close> returns
  \<^verbatim>\<open>None\<close> for the empty text, but the caller keeps every repaired value of a text cell:
  \<^verbatim>\<open>max(categories, key=len)\<close> takes \<^verbatim>\<open>len(None)\<close> and raises TypeError, which ends the
  whole call. A missing category is dropped by the \<^verbatim>\<open>isinstance\<close> filter and does no harm.
  The empty text also arises inside the call: a Level One functional category of spaces only
  is repaired to the empty text and stored, and the second \<^verbatim>\<open>df.apply\<close> over the
  functional columns then fails on it in the same way.
\<close>

theorem empty_category_raises:
  "clean_taxonomy_labels [] = None \<and>
   longest_tech_category (sample_row\<lparr>level_one_category := Str []\<rparr>) = Inl TypeError \<and>
   standardize_inventory_data [sample_row\<lparr>level_one_category := Str []\<rparr>] = Inl TypeError \<and>
   standardize_inventory_data [sample_row\<lparr>level_one_category := NaN\<rparr>]
     = Inr [sample_cleaned] \<and>
   standardize_inventory_data [sample_row\<lparr>level_one_functional_category := Str ''  ''\<rparr>]
     = Inl TypeError"
  by code_simp

text \<open>
  C3. The claim: no field of an output row is empty, also where the original was a text of
  spaces only. A Technology Name of three spaces is stripped to the empty text; the fill
  that follows replaces missing cells only, so the empty text is what the output row holds.
  The Description is treated otherwise: a text that is empty after cleaning is replaced by
  its placeholder. What the pipeline does achieve for every row is
  \<open>output_has_no_missing_cell\<close>: no cell is missing and the Description is not empty.
\<close>

theorem blank_name_stays_empty:
  "standardize_inventory_data [sample_row\<lparr>technology_name := Str ''   ''\<rparr>]
   = Inr [sample_cleaned\<lparr>technology_name := Str []\<rparr>]"
  by code_simp

end
